theory Spec2Isabelle
  imports Main "HOL-Library.Sublist"
begin

section \<open>Calendar dates and timestamps\<close>

text \<open>
  Python's \<open>datetime.date\<close> is a triple of year, month and day, ordered
  lexicographically. \<open>datetime.datetime\<close> is a date with a time of day, here the
  number of seconds since midnight; \<open>.date()\<close> is the field \<open>dt_date\<close>.
\<close>

record date =
  year :: int
  month :: int
  day :: int

record datetime =
  dt_date :: date
  dt_secs :: nat

definition date_lt :: "date \<Rightarrow> date \<Rightarrow> bool" where
  "date_lt a b \<longleftrightarrow>
     year a < year b \<or>
     (year a = year b \<and> (month a < month b \<or> (month a = month b \<and> day a < day b)))"

definition date_le :: "date \<Rightarrow> date \<Rightarrow> bool" where
  "date_le a b \<longleftrightarrow> date_lt a b \<or> a = b"

definition is_leap :: "int \<Rightarrow> bool" where
  "is_leap y \<longleftrightarrow> y mod 4 = 0 \<and> (y mod 100 \<noteq> 0 \<or> y mod 400 = 0)"

definition days_in_month :: "int \<Rightarrow> int \<Rightarrow> int" where
  "days_in_month y m =
     (if m = 2 then (if is_leap y then 29 else 28)
      else if m = 4 \<or> m = 6 \<or> m = 9 \<or> m = 11 then 30 else 31)"

definition valid_date :: "date \<Rightarrow> bool" where
  "valid_date d \<longleftrightarrow>
     1 \<le> year d \<and> year d \<le> 9999 \<and> 1 \<le> month d \<and> month d \<le> 12 \<and>
     1 \<le> day d \<and> day d \<le> days_in_month (year d) (month d)"

text \<open>
  The constructor \<open>date(y, m, d)\<close> raises \<open>ValueError\<close> outside the calendar
  (years 1 to 9999); the model returns \<open>None\<close> there.
\<close>

definition py_date :: "int \<Rightarrow> int \<Rightarrow> int \<Rightarrow> date option" where
  "py_date y m d =
     (let r = \<lparr>year = y, month = m, day = d\<rparr>
      in if valid_date r then Some r else None)"

section \<open>The reminders table\<close>

text \<open>
  \<open>models/reminder.py\<close>: one row of the table \<open>reminders\<close>. The primary key
  \<open>id\<close> is the field \<open>rid\<close>. The table is a list of rows together with the
  auto-increment counter of the primary key.
\<close>

record reminder =
  rid :: int
  company_id :: int
  reminder_month :: date
  expected_by_date :: date
  max_days_to_send :: int
  days_sent :: int
  is_active :: bool
  manual_stop :: bool
  gst_received :: bool
  created_at :: datetime
  last_sent :: "datetime option"

record reminder_db =
  reminders :: "reminder list"
  next_rid :: int

datatype http_error = HTTP_404 | HTTP_500

text \<open>\<open>db.get(Reminder, reminder_id)\<close>: the row with that primary key, if any.\<close>

definition db_get :: "reminder_db \<Rightarrow> int \<Rightarrow> reminder option" where
  "db_get db i = find (\<lambda>r. rid r = i) (reminders db)"

text \<open>Writing the attributes of the loaded object back on commit.\<close>

definition db_update :: "reminder_db \<Rightarrow> int \<Rightarrow> (reminder \<Rightarrow> reminder) \<Rightarrow> reminder_db" where
  "db_update db i f = db\<lparr>reminders := map (\<lambda>r. if rid r = i then f r else r) (reminders db)\<rparr>"

text \<open>\<open>routers/reminders.py\<close>, \<open>stop\<close> and \<open>restart\<close>.\<close>

definition stop :: "reminder_db \<Rightarrow> int \<Rightarrow> http_error + reminder_db" where
  "stop db reminder_id =
     (case db_get db reminder_id of
        None \<Rightarrow> Inl HTTP_404
      | Some obj \<Rightarrow> Inr (db_update db reminder_id (\<lambda>r. r\<lparr>manual_stop := True\<rparr>)))"

definition restart :: "reminder_db \<Rightarrow> int \<Rightarrow> http_error + reminder_db" where
  "restart db reminder_id =
     (case db_get db reminder_id of
        None \<Rightarrow> Inl HTTP_404
      | Some obj \<Rightarrow>
          Inr (db_update db reminder_id (\<lambda>r. r\<lparr>manual_stop := False, is_active := True\<rparr>)))"

text \<open>
  \<open>schemas/reminder.py\<close>, \<open>ReminderUpdate\<close>: each field is optional, and
  \<open>None\<close> stands for a field the request does not set.
\<close>

record reminder_update =
  ru_max_days_to_send :: "int option"
  ru_is_active :: "bool option"
  ru_manual_stop :: "bool option"

text \<open>
  \<open>routers/reminders.py\<close>, \<open>update_reminder\<close>: every field the request sets is
  written to the object with \<open>setattr\<close>, whatever its value.
\<close>

definition set_fields :: "reminder_update \<Rightarrow> reminder \<Rightarrow> reminder" where
  "set_fields data r =
     (let r1 = (case ru_max_days_to_send data of None \<Rightarrow> r | Some v \<Rightarrow> r\<lparr>max_days_to_send := v\<rparr>);
          r2 = (case ru_is_active data of None \<Rightarrow> r1 | Some v \<Rightarrow> r1\<lparr>is_active := v\<rparr>)
      in (case ru_manual_stop data of None \<Rightarrow> r2 | Some v \<Rightarrow> r2\<lparr>manual_stop := v\<rparr>))"

definition update_reminder :: "reminder_db \<Rightarrow> int \<Rightarrow> reminder_update \<Rightarrow> http_error + reminder_db" where
  "update_reminder db reminder_id data =
     (case db_get db reminder_id of
        None \<Rightarrow> Inl HTTP_404
      | Some obj \<Rightarrow> Inr (db_update db reminder_id (set_fields data)))"

section \<open>Creating reminders\<close>

text \<open>
  \<open>db.add\<close> followed by the flush: the new row gets the next primary key and is
  appended to the table.
\<close>

definition db_add :: "reminder_db \<Rightarrow> reminder \<Rightarrow> reminder_db" where
  "db_add db r =
     \<lparr>reminders = reminders db @ [r\<lparr>rid := next_rid db\<rparr>], next_rid = next_rid db + 1\<rparr>"

record company =
  cid :: int
  cname :: string
  c_is_active :: bool

text \<open>\<open>services/reminder_service.py\<close>, \<open>_calculate_expected_date\<close>.\<close>

definition calculate_expected_date :: "date \<Rightarrow> date option" where
  "calculate_expected_date rm =
     (if month rm = 12 then py_date (year rm + 1) 1 7
      else py_date (year rm) (month rm + 1) 7)"

text \<open>
  \<open>create_monthly_reminders\<close>: the loop over the active companies. A row is added
  only when the query for the pair of company and month finds none; the rows added so far
  are visible to the query (the session flushes before it). \<open>None\<close> is the exception of
  the date constructor, which leaves the loop before the commit.
\<close>

fun create_loop :: "date \<Rightarrow> datetime \<Rightarrow> company list \<Rightarrow> reminder_db \<Rightarrow> reminder_db option" where
  "create_loop target_month now [] db = Some db"
| "create_loop target_month now (c # cs) db =
     (case find (\<lambda>r. company_id r = cid c \<and> reminder_month r = target_month) (reminders db) of
        Some existing \<Rightarrow> create_loop target_month now cs db
      | None \<Rightarrow>
          (case calculate_expected_date target_month of
             None \<Rightarrow> None
           | Some e \<Rightarrow>
               create_loop target_month now cs
                 (db_add db
                    \<lparr>rid = 0, company_id = cid c, reminder_month = target_month,
                     expected_by_date = e, max_days_to_send = 5, days_sent = 0,
                     is_active = True, manual_stop = False, gst_received = False,
                     created_at = now, last_sent = None\<rparr>)))"

text \<open>The exception is caught and logged; nothing has been committed then.\<close>

definition create_monthly_reminders ::
    "company list \<Rightarrow> reminder_db \<Rightarrow> date \<Rightarrow> datetime \<Rightarrow> reminder_db" where
  "create_monthly_reminders companies db target_month now =
     (case create_loop target_month now (filter c_is_active companies) db of
        None \<Rightarrow> db
      | Some db' \<Rightarrow> db')"

text \<open>
  \<open>schemas/reminder.py\<close>, \<open>ReminderCreate\<close>, and \<open>routers/reminders.py\<close>,
  \<open>create_reminder\<close>, the router that \<open>main.py\<close> mounts. The columns the constructor
  does not name take their defaults. The handler has no \<open>try\<close>: the exception of the
  date constructor and the foreign-key error of an unknown company end the request with
  status 500 and no row.
\<close>

record reminder_create =
  rc_company_id :: int
  rc_reminder_month :: date
  rc_max_days_to_send :: int

definition create_reminder ::
    "company list \<Rightarrow> reminder_db \<Rightarrow> reminder_create \<Rightarrow> datetime \<Rightarrow> http_error + reminder_db \<times> reminder" where
  "create_reminder companies db rem now =
     (case py_date (year (rc_reminder_month rem)) (month (rc_reminder_month rem)) 7 of
        None \<Rightarrow> Inl HTTP_500
      | Some e \<Rightarrow>
          if rc_company_id rem \<notin> set (map cid companies) then Inl HTTP_500
          else
            let obj = \<lparr>rid = next_rid db, company_id = rc_company_id rem,
                       reminder_month = rc_reminder_month rem,
                       expected_by_date = e,
                       max_days_to_send = rc_max_days_to_send rem, days_sent = 0,
                       is_active = True, manual_stop = False, gst_received = False,
                       created_at = now, last_sent = None\<rparr>
            in Inr (db_add db obj, obj))"

section \<open>The emails table\<close>

text \<open>
  \<open>models/email.py\<close>: one row of the table \<open>emails\<close>. The primary key \<open>id\<close> is
  the field \<open>eid\<close>, and the column \<open>company_id\<close> is the field \<open>email_company_id\<close>
  (the reminder has a field of that name already). A nullable column is an option.
\<close>

record email =
  eid :: int
  message_id :: string
  sender :: string
  subject :: "string option"
  body :: "string option"
  email_company_id :: "int option"
  primary_category :: "string option"
  sub_category :: "string option"
  data_month :: "int option"
  data_year :: "int option"
  is_processed :: bool
  ai_classified :: bool
  received_date :: datetime

section \<open>The daily tick\<close>

text \<open>\<open>services/reminder_service.py\<close>, \<open>_get_pending_reminders\<close>.\<close>

definition get_pending_reminders :: "reminder_db \<Rightarrow> date \<Rightarrow> reminder list" where
  "get_pending_reminders db today =
     filter (\<lambda>r. is_active r = True \<and> manual_stop r = False \<and> gst_received r = False \<and>
                  days_sent r < max_days_to_send r \<and> date_le (expected_by_date r) today)
       (reminders db)"

text \<open>\<open>_check_gst_received\<close>: some email of the company is classified GST for the month.\<close>

definition check_gst_received :: "email list \<Rightarrow> reminder \<Rightarrow> bool" where
  "check_gst_received emails r =
     (0 < length (filter (\<lambda>e. email_company_id e = Some (company_id r) \<and>
                               primary_category e = Some ''GST'' \<and>
                               data_month e = Some (month (reminder_month r)) \<and>
                               data_year e = Some (year (reminder_month r))) emails))"

text \<open>\<open>_should_send_today\<close>.\<close>

definition should_send_today :: "reminder \<Rightarrow> date \<Rightarrow> bool" where
  "should_send_today r today =
     (case last_sent r of
        None \<Rightarrow> True
      | Some ls \<Rightarrow> date_lt (dt_date ls) today)"

text \<open>
  \<open>_process_reminder\<close>. The notification sink \<open>email_sender.send_gst_reminder\<close> is
  outside the pipeline: \<open>send\<close> gives its result for a reminder, true for a delivered
  notification. The function returns the reminder as it is after the call and the
  dispatches it attempted, each with the id of the reminder and the result.
\<close>

definition process_reminder ::
    "email list \<Rightarrow> (reminder \<Rightarrow> bool) \<Rightarrow> date \<Rightarrow> datetime \<Rightarrow> reminder \<Rightarrow> reminder \<times> (int \<times> bool) list" where
  "process_reminder emails send today now r =
     (if check_gst_received emails r then (r\<lparr>gst_received := True, is_active := False\<rparr>, [])
      else if \<not> should_send_today r today then (r, [])
      else if send r then
        (let r1 = r\<lparr>days_sent := days_sent r + 1, last_sent := Some now\<rparr>
         in (if days_sent r1 \<ge> max_days_to_send r1 then r1\<lparr>is_active := False\<rparr> else r1,
             [(rid r, True)]))
      else (r, [(rid r, False)]))"

text \<open>
  \<open>process_daily_reminders\<close>: the loop over the pending reminders; the commit writes
  each processed object back to its row.
\<close>

fun process_all ::
    "email list \<Rightarrow> (reminder \<Rightarrow> bool) \<Rightarrow> date \<Rightarrow> datetime \<Rightarrow> reminder list \<Rightarrow>
     reminder_db \<Rightarrow> (int \<times> bool) list \<Rightarrow> reminder_db \<times> (int \<times> bool) list" where
  "process_all emails send today now [] db log = (db, log)"
| "process_all emails send today now (r # rs) db log =
     (case process_reminder emails send today now r of
        (r', l) \<Rightarrow>
          process_all emails send today now rs (db_update db (rid r) (\<lambda>old. r')) (log @ l))"

definition process_daily_reminders ::
    "email list \<Rightarrow> (reminder \<Rightarrow> bool) \<Rightarrow> date \<Rightarrow> datetime \<Rightarrow> reminder_db \<Rightarrow>
     reminder_db \<times> (int \<times> bool) list" where
  "process_daily_reminders emails send today now db =
     process_all emails send today now (get_pending_reminders db today) db []"

section \<open>Sequences of operations on the reminders table\<close>

text \<open>
  The operations that change a reminder, each with what it reads from outside the table:
  the tick reads the emails, the notification sink and the clock, the creations read the
  companies and the clock. An operation that ends in an error leaves the table as it is.
\<close>

datatype operation =
    Tick "email list" "reminder \<Rightarrow> bool" date datetime
  | Stop int
  | Restart int
  | Update int reminder_update
  | Create_monthly "company list" date datetime
  | Create_manual "company list" reminder_create datetime

fun apply_operation :: "reminder_db \<Rightarrow> operation \<Rightarrow> reminder_db" where
  "apply_operation db (Tick emails send today now) =
     fst (process_daily_reminders emails send today now db)"
| "apply_operation db (Stop i) = (case stop db i of Inl e \<Rightarrow> db | Inr db' \<Rightarrow> db')"
| "apply_operation db (Restart i) = (case restart db i of Inl e \<Rightarrow> db | Inr db' \<Rightarrow> db')"
| "apply_operation db (Update i data) =
     (case update_reminder db i data of Inl e \<Rightarrow> db | Inr db' \<Rightarrow> db')"
| "apply_operation db (Create_monthly companies target_month now) =
     create_monthly_reminders companies db target_month now"
| "apply_operation db (Create_manual companies rem now) =
     (case create_reminder companies db rem now of Inl e \<Rightarrow> db | Inr (db', obj) \<Rightarrow> db')"

definition run :: "reminder_db \<Rightarrow> operation list \<Rightarrow> reminder_db" where
  "run db ops = foldl apply_operation db ops"

definition empty_db :: reminder_db where
  "empty_db = \<lparr>reminders = [], next_rid = 1\<rparr>"

text \<open>The three invariants of a reminder, and of every row of the table.\<close>

definition reminder_inv :: "reminder \<Rightarrow> bool" where
  "reminder_inv r \<longleftrightarrow>
     days_sent r \<le> max_days_to_send r \<and>
     (gst_received r \<longrightarrow> \<not> is_active r) \<and>
     (days_sent r \<ge> max_days_to_send r \<longrightarrow> \<not> is_active r)"

definition db_inv :: "reminder_db \<Rightarrow> bool" where
  "db_inv db \<longleftrightarrow> list_all reminder_inv (reminders db)"

text \<open>
  The operations under which the invariants are kept: the tick, stop, the monthly
  creation, and the manual creation with a budget of at least one notification.
\<close>

fun keeps_inv :: "operation \<Rightarrow> bool" where
  "keeps_inv (Tick emails send today now) = True"
| "keeps_inv (Stop i) = True"
| "keeps_inv (Restart i) = False"
| "keeps_inv (Update i data) = False"
| "keeps_inv (Create_monthly companies target_month now) = True"
| "keeps_inv (Create_manual companies rem now) = (1 \<le> rc_max_days_to_send rem)"

text \<open>The number of rows with the key of a company and a month.\<close>

definition key_count :: "reminder_db \<Rightarrow> int \<Rightarrow> date \<Rightarrow> nat" where
  "key_count db c m =
     length (filter (\<lambda>r. company_id r = c \<and> reminder_month r = m) (reminders db))"

section \<open>Example data\<close>

definition june_2025 :: date where
  "june_2025 = \<lparr>year = 2025, month = 6, day = 1\<rparr>"

definition july_8_2025 :: date where
  "july_8_2025 = \<lparr>year = 2025, month = 7, day = 8\<rparr>"

definition july_8_morning :: datetime where
  "july_8_morning = \<lparr>dt_date = july_8_2025, dt_secs = 32400\<rparr>"

definition june_1_morning :: datetime where
  "june_1_morning = \<lparr>dt_date = june_2025, dt_secs = 32400\<rparr>"

definition acme :: company where
  "acme = \<lparr>cid = 1, cname = ''Acme'', c_is_active = True\<rparr>"

definition delivered :: "reminder \<Rightarrow> bool" where
  "delivered r = True"

definition not_delivered :: "reminder \<Rightarrow> bool" where
  "not_delivered r = False"

definition gst_email_june :: email where
  "gst_email_june =
     \<lparr>eid = 1, message_id = ''m1'', sender = ''accounts@acme.example'',
      subject = Some ''GSTR-3B June'', body = Some ''attached'', email_company_id = Some 1,
      primary_category = Some ''GST'', sub_category = Some ''GSTR3B'',
      data_month = Some 6, data_year = Some 2025, is_processed = True,
      ai_classified = True, received_date = july_8_morning\<rparr>"

definition acme_june_create :: reminder_create where
  "acme_june_create =
     \<lparr>rc_company_id = 1, rc_reminder_month = june_2025, rc_max_days_to_send = 5\<rparr>"

definition acme_june_reminder :: reminder where
  "acme_june_reminder =
     \<lparr>rid = 1, company_id = 1, reminder_month = june_2025,
      expected_by_date = \<lparr>year = 2025, month = 7, day = 7\<rparr>,
      max_days_to_send = 5, days_sent = 5, is_active = False, manual_stop = True,
      gst_received = True, created_at = june_1_morning, last_sent = Some july_8_morning\<rparr>"

definition acme_db :: reminder_db where
  "acme_db = \<lparr>reminders = [acme_june_reminder], next_rid = 2\<rparr>"

definition reopen_ops :: "operation list" where
  "reopen_ops =
     [Create_monthly [acme] june_2025 june_1_morning,
      Tick [gst_email_june] delivered july_8_2025 july_8_morning,
      Restart 1]"

definition lower_budget :: reminder_update where
  "lower_budget = \<lparr>ru_max_days_to_send = Some 0, ru_is_active = None, ru_manual_stop = None\<rparr>"

definition shrink_ops :: "operation list" where
  "shrink_ops =
     [Create_monthly [acme] june_2025 june_1_morning,
      Tick [] delivered july_8_2025 july_8_morning,
      Update 1 lower_budget]"

definition zero_budget_create :: reminder_create where
  "zero_budget_create =
     \<lparr>rc_company_id = 1, rc_reminder_month = june_2025, rc_max_days_to_send = 0\<rparr>"

definition zero_budget_ops :: "operation list" where
  "zero_budget_ops = [Create_manual [acme] zero_budget_create june_1_morning]"

definition tick_ops :: "operation list" where
  "tick_ops =
     [Create_monthly [acme] june_2025 june_1_morning,
      Tick [] delivered july_8_2025 july_8_morning,
      Stop 1]"

definition twice_manual_ops :: "operation list" where
  "twice_manual_ops =
     [Create_manual [acme] acme_june_create june_1_morning,
      Create_manual [acme] acme_june_create june_1_morning]"

definition is_create_monthly :: "operation \<Rightarrow> bool" where
  "is_create_monthly op =
     (case op of Create_monthly companies target_month now \<Rightarrow> True | _ \<Rightarrow> False)"

definition acme_pending_reminder :: reminder where
  "acme_pending_reminder =
     \<lparr>rid = 1, company_id = 1, reminder_month = june_2025,
      expected_by_date = \<lparr>year = 2025, month = 7, day = 7\<rparr>,
      max_days_to_send = 5, days_sent = 0, is_active = True, manual_stop = False,
      gst_received = False, created_at = june_1_morning, last_sent = None\<rparr>"

definition acme_pending_db :: reminder_db where
  "acme_pending_db = \<lparr>reminders = [acme_pending_reminder], next_rid = 2\<rparr>"

definition acme_sent_db :: reminder_db where
  "acme_sent_db =
     \<lparr>reminders = [acme_pending_reminder\<lparr>days_sent := 1, last_sent := Some july_8_morning\<rparr>],
      next_rid = 2\<rparr>"

definition twice_monthly_ops :: "operation list" where
  "twice_monthly_ops =
     [Create_monthly [acme] june_2025 june_1_morning,
      Create_monthly [acme] june_2025 july_8_morning]"

section \<open>Properties of the reminder state machine\<close>

subsection \<open>Frame of restart\<close>

lemma db_get_Some_rid: "db_get db i = Some obj \<Longrightarrow> rid obj = i \<and> obj \<in> set (reminders db)"
  by (auto simp: db_get_def find_Some_iff)

text \<open>
  C10. For an existing reminder, \<open>restart\<close> succeeds, keeps the number and order of
  the rows and the id counter, leaves every row with another id as it is, and in the row
  with the given id sets \<open>manual_stop\<close> to false and \<open>is_active\<close> to true and changes
  no other field: \<open>days_sent\<close> is not reset and \<open>gst_received\<close> is not cleared.
\<close>

theorem restart_frame:
  assumes "db_get db i = Some obj"
  shows "\<exists>db'. restart db i = Inr db' \<and>
           next_rid db' = next_rid db \<and>
           length (reminders db') = length (reminders db) \<and>
           (\<forall>k < length (reminders db).
              let r = reminders db ! k; r' = reminders db' ! k in
              (rid r \<noteq> i \<longrightarrow> r' = r) \<and>
              (rid r = i \<longrightarrow>
                 manual_stop r' = False \<and> is_active r' = True \<and>
                 rid r' = rid r \<and> company_id r' = company_id r \<and>
                 reminder_month r' = reminder_month r \<and>
                 expected_by_date r' = expected_by_date r \<and>
                 max_days_to_send r' = max_days_to_send r \<and>
                 days_sent r' = days_sent r \<and> gst_received r' = gst_received r \<and>
                 created_at r' = created_at r \<and> last_sent r' = last_sent r \<and>
                 r' = r\<lparr>manual_stop := False, is_active := True\<rparr>))"
  using assms by (simp add: restart_def db_update_def Let_def)

theorem restart_frame_witness:
  "db_get acme_db 1 = Some acme_june_reminder \<and>
   (\<exists>db'. restart acme_db 1 = Inr db' \<and>
      days_sent (reminders db' ! 0) = 5 \<and> gst_received (reminders db' ! 0) \<and>
      is_active (reminders db' ! 0) \<and> \<not> manual_stop (reminders db' ! 0))"
proof -
  have h: "db_get acme_db 1 = Some acme_june_reminder"
    by (simp add: db_get_def acme_db_def acme_june_reminder_def)
  from restart_frame [OF h] obtain db' where
    r: "restart acme_db 1 = Inr db'" and
    f: "\<forall>k < length (reminders acme_db).
          let r = reminders acme_db ! k; r' = reminders db' ! k in
          (rid r \<noteq> 1 \<longrightarrow> r' = r) \<and>
          (rid r = 1 \<longrightarrow>
             manual_stop r' = False \<and> is_active r' = True \<and>
             rid r' = rid r \<and> company_id r' = company_id r \<and>
             reminder_month r' = reminder_month r \<and>
             expected_by_date r' = expected_by_date r \<and>
             max_days_to_send r' = max_days_to_send r \<and>
             days_sent r' = days_sent r \<and> gst_received r' = gst_received r \<and>
             created_at r' = created_at r \<and> last_sent r' = last_sent r \<and>
             r' = r\<lparr>manual_stop := False, is_active := True\<rparr>)"
    by blast
  from f have "days_sent (reminders db' ! 0) = 5 \<and> gst_received (reminders db' ! 0) \<and>
      is_active (reminders db' ! 0) \<and> \<not> manual_stop (reminders db' ! 0)"
    by (simp add: acme_db_def acme_june_reminder_def Let_def)
  with h r show ?thesis by blast
qed

subsection \<open>The invariants of a reminder\<close>

lemmas example_defs =
  run_def empty_db_def reopen_ops_def shrink_ops_def zero_budget_ops_def tick_ops_def
  twice_manual_ops_def create_monthly_reminders_def acme_def calculate_expected_date_def
  py_date_def valid_date_def days_in_month_def is_leap_def db_add_def
  process_daily_reminders_def get_pending_reminders_def date_le_def date_lt_def
  process_reminder_def check_gst_received_def gst_email_june_def june_2025_def
  july_8_2025_def july_8_morning_def june_1_morning_def restart_def stop_def
  update_reminder_def set_fields_def db_get_def db_update_def should_send_today_def
  delivered_def not_delivered_def lower_budget_def zero_budget_create_def
  acme_june_create_def create_reminder_def Let_def


lemma pending_processed_inv:
  "r \<in> set (get_pending_reminders db today) \<Longrightarrow>
   reminder_inv (fst (process_reminder emails send today now r))"
  by (auto simp: get_pending_reminders_def process_reminder_def reminder_inv_def Let_def)

lemma db_update_const_inv:
  "db_inv db \<Longrightarrow> reminder_inv r' \<Longrightarrow> db_inv (db_update db i (\<lambda>old. r'))"
  by (auto simp: db_inv_def db_update_def list_all_iff)

lemma process_all_inv:
  "db_inv db \<Longrightarrow>
   \<forall>r \<in> set rs. reminder_inv (fst (process_reminder emails send today now r)) \<Longrightarrow>
   db_inv (fst (process_all emails send today now rs db log))"
proof (induction rs arbitrary: db log)
  case Nil
  then show ?case by simp
next
  case (Cons r rs)
  obtain r' l where p: "process_reminder emails send today now r = (r', l)"
    by (cases "process_reminder emails send today now r")
  with Cons.prems have "reminder_inv r'" by auto
  with Cons.prems have "db_inv (db_update db (rid r) (\<lambda>old. r'))"
    by (simp add: db_update_const_inv)
  with Cons.IH Cons.prems p show ?case by simp
qed

lemma tick_inv:
  "db_inv db \<Longrightarrow> db_inv (fst (process_daily_reminders emails send today now db))"
  unfolding process_daily_reminders_def
  by (rule process_all_inv) (auto simp: pending_processed_inv)

lemma stop_inv: "db_inv db \<Longrightarrow> stop db i = Inr db' \<Longrightarrow> db_inv db'"
  by (auto simp: stop_def db_inv_def db_update_def list_all_iff reminder_inv_def
           split: option.splits)

lemma db_add_inv: "db_inv db \<Longrightarrow> reminder_inv r \<Longrightarrow> db_inv (db_add db r)"
  by (simp add: db_inv_def db_add_def reminder_inv_def)

lemma create_loop_inv:
  "db_inv db \<Longrightarrow> create_loop tm now cs db = Some db' \<Longrightarrow> db_inv db'"
proof (induction cs arbitrary: db)
  case Nil
  then show ?case by simp
next
  case (Cons c cs)
  show ?case
  proof (cases "find (\<lambda>r. company_id r = cid c \<and> reminder_month r = tm) (reminders db)")
    case (Some existing)
    with Cons show ?thesis by simp
  next
    case None
    with Cons.prems obtain e where
      l: "create_loop tm now cs
            (db_add db
               \<lparr>rid = 0, company_id = cid c, reminder_month = tm,
                expected_by_date = e, max_days_to_send = 5, days_sent = 0,
                is_active = True, manual_stop = False, gst_received = False,
                created_at = now, last_sent = None\<rparr>) = Some db'"
      by (auto split: option.splits)
    have "db_inv (db_add db
               \<lparr>rid = 0, company_id = cid c, reminder_month = tm,
                expected_by_date = e, max_days_to_send = 5, days_sent = 0,
                is_active = True, manual_stop = False, gst_received = False,
                created_at = now, last_sent = None\<rparr>)"
      using Cons.prems(1) by (rule db_add_inv) (simp add: reminder_inv_def)
    then show ?thesis using l by (rule Cons.IH)
  qed
qed

lemma create_monthly_inv:
  "db_inv db \<Longrightarrow> db_inv (create_monthly_reminders companies db tm now)"
  by (auto simp: create_monthly_reminders_def split: option.splits dest: create_loop_inv)

lemma create_manual_inv:
  "db_inv db \<Longrightarrow> 1 \<le> rc_max_days_to_send rem \<Longrightarrow>
   create_reminder companies db rem now = Inr (db', obj) \<Longrightarrow> db_inv db'"
  by (auto simp: create_reminder_def Let_def reminder_inv_def
           split: option.splits if_splits intro!: db_add_inv)

lemma apply_operation_inv:
  "keeps_inv op \<Longrightarrow> db_inv db \<Longrightarrow> db_inv (apply_operation db op)"
proof (cases op)
  case (Tick emails send today now)
  then show "db_inv db \<Longrightarrow> ?thesis" by (simp add: tick_inv)
next
  case (Stop i)
  then show "db_inv db \<Longrightarrow> ?thesis" by (auto split: sum.splits dest: stop_inv)
next
  case (Restart i)
  then show "keeps_inv op \<Longrightarrow> ?thesis" by simp
next
  case (Update i data)
  then show "keeps_inv op \<Longrightarrow> ?thesis" by simp
next
  case (Create_monthly companies tm now)
  then show "db_inv db \<Longrightarrow> ?thesis" by (simp add: create_monthly_inv)
next
  case (Create_manual companies rem now)
  then show "keeps_inv op \<Longrightarrow> db_inv db \<Longrightarrow> ?thesis"
    by (auto split: sum.splits dest: create_manual_inv)
qed

lemma run_inv: "db_inv db \<Longrightarrow> list_all keeps_inv ops \<Longrightarrow> db_inv (run db ops)"
  unfolding run_def
  by (induction ops arbitrary: db) (auto simp: apply_operation_inv)

text \<open>
  C1, as amended. From a table whose rows satisfy the three invariants (the empty table
  is one), every sequence of daily ticks (whatever the notification sink answers), stops,
  monthly creations and manual creations with a budget of at least one notification
  leads to a table in which every reminder has \<open>days_sent \<le> max_days_to_send\<close>, is
  inactive when \<open>gst_received\<close> holds, and is inactive when
  \<open>days_sent \<ge> max_days_to_send\<close>. Restart and field update are not among these
  operations.
\<close>

theorem invariants_kept:
  assumes "db_inv db" and "list_all keeps_inv ops"
  shows "\<forall>r \<in> set (reminders (run db ops)).
           days_sent r \<le> max_days_to_send r \<and>
           (gst_received r \<longrightarrow> \<not> is_active r) \<and>
           (days_sent r \<ge> max_days_to_send r \<longrightarrow> \<not> is_active r)"
  using run_inv [OF assms] by (simp add: db_inv_def list_all_iff reminder_inv_def)

theorem invariants_kept_witness:
  "db_inv empty_db \<and> list_all keeps_inv tick_ops \<and> db_inv (run empty_db tick_ops)"
proof -
  have h1: "db_inv empty_db"
    by (simp add: db_inv_def empty_db_def)
  have h2: "list_all keeps_inv tick_ops"
    by (simp add: tick_ops_def)
  from invariants_kept [OF h1 h2] have "db_inv (run empty_db tick_ops)"
    by (simp add: db_inv_def list_all_iff reminder_inv_def)
  with h1 h2 show ?thesis by blast
qed

text \<open>
  C1, as stated, fails. After the tick has found the GST email and closed the reminder,
  restart makes it active again while \<open>gst_received\<close> stays true; an update that
  lowers \<open>max_days_to_send\<close> to 0 after one notification leaves
  \<open>days_sent > max_days_to_send\<close>; and a manual creation with a budget of 0 gives an
  active reminder with \<open>days_sent \<ge> max_days_to_send\<close>.
\<close>

theorem invariants_broken:
  "\<not> db_inv (run empty_db reopen_ops) \<and>
   \<not> db_inv (run empty_db shrink_ops) \<and>
   \<not> db_inv (run empty_db zero_budget_ops)"
proof -
  have "\<not> db_inv (run empty_db reopen_ops)"
    by (simp add: example_defs db_inv_def reminder_inv_def)
  moreover have "\<not> db_inv (run empty_db shrink_ops)"
    by (simp add: example_defs db_inv_def reminder_inv_def)
  moreover have "\<not> db_inv (run empty_db zero_budget_ops)"
    by (simp add: example_defs db_inv_def reminder_inv_def)
  ultimately show ?thesis by blast
qed

subsection \<open>Dispatches of the daily tick\<close>

lemma date_lt_irrefl: "\<not> date_lt a a"
  by (simp add: date_lt_def)

lemma date_le_not_after: "date_le a b \<Longrightarrow> \<not> date_lt b a"
  by (auto simp: date_le_def date_lt_def)

lemma process_reminder_log:
  "(i, ok) \<in> set (snd (process_reminder emails send today now r)) \<Longrightarrow>
   rid r = i \<and> ok = send r \<and> should_send_today r today \<and> \<not> check_gst_received emails r"
  by (auto simp: process_reminder_def Let_def split: if_splits)

lemma process_reminder_log_ids:
  "map fst (snd (process_reminder emails send today now r)) =
   (if \<not> check_gst_received emails r \<and> should_send_today r today then [rid r] else [])"
  by (simp add: process_reminder_def Let_def)

lemma process_reminder_rid: "rid (fst (process_reminder emails send today now r)) = rid r"
  by (simp add: process_reminder_def Let_def)

lemma process_reminder_sent:
  "(i, True) \<in> set (snd (process_reminder emails send today now r)) \<Longrightarrow>
   last_sent (fst (process_reminder emails send today now r)) = Some now"
  by (auto simp: process_reminder_def Let_def split: if_splits)

lemma process_all_log:
  "snd (process_all emails send today now rs db log) =
   log @ concat (map (\<lambda>r. snd (process_reminder emails send today now r)) rs)"
  by (induction rs arbitrary: db log) (auto split: prod.splits)

lemma process_all_rows:
  "x' \<in> set (reminders (fst (process_all emails send today now rs db log))) \<Longrightarrow>
   (\<exists>r \<in> set rs. rid r = rid x' \<and> x' = fst (process_reminder emails send today now r)) \<or>
   (x' \<in> set (reminders db) \<and> rid x' \<notin> rid ` set rs)"
proof (induction rs arbitrary: db log)
  case Nil
  then show ?case by simp
next
  case (Cons r rs)
  obtain r' l where p: "process_reminder emails send today now r = (r', l)"
    by (cases "process_reminder emails send today now r")
  have rr: "rid r' = rid r"
    using process_reminder_rid [of emails send today now r] p by simp
  from Cons.prems p have
    "x' \<in> set (reminders (fst (process_all emails send today now rs
             (db_update db (rid r) (\<lambda>old. r')) (log @ l))))"
    by simp
  from Cons.IH [OF this] show ?case
  proof
    assume "\<exists>q \<in> set rs. rid q = rid x' \<and> x' = fst (process_reminder emails send today now q)"
    then show ?thesis by auto
  next
    assume a: "x' \<in> set (reminders (db_update db (rid r) (\<lambda>old. r'))) \<and> rid x' \<notin> rid ` set rs"
    then obtain x where x: "x \<in> set (reminders db)" "x' = (if rid x = rid r then r' else x)"
      by (auto simp: db_update_def)
    show ?thesis
    proof (cases "rid x = rid r")
      case True
      with x p rr show ?thesis by auto
    next
      case False
      with x a show ?thesis by auto
    qed
  qed
qed

lemma concat_map_singleton_filter:
  "concat (map (\<lambda>r. if D r then [f r] else []) xs) = map f (filter D xs)"
  by (induction xs) auto

lemma tick_log_pending:
  assumes "process_daily_reminders emails send today now db = (db', log)"
    and "(i, ok) \<in> set log"
  shows "\<exists>r \<in> set (get_pending_reminders db today).
           rid r = i \<and> ok = send r \<and> should_send_today r today \<and>
           \<not> check_gst_received emails r"
proof -
  from assms(1) have "log = concat (map (\<lambda>r. snd (process_reminder emails send today now r))
                                     (get_pending_reminders db today))"
    using process_all_log [of emails send today now "get_pending_reminders db today" db "[]"]
    by (simp add: process_daily_reminders_def)
  with assms(2) obtain r where "r \<in> set (get_pending_reminders db today)"
    and "(i, ok) \<in> set (snd (process_reminder emails send today now r))"
    by auto
  then show ?thesis using process_reminder_log by blast
qed

lemma tick_log_distinct:
  assumes "process_daily_reminders emails send today now db = (db', log)"
    and "distinct (map rid (reminders db))"
  shows "distinct (map fst log)"
proof -
  let ?D = "\<lambda>r. \<not> check_gst_received emails r \<and> should_send_today r today"
  from assms(1) have "log = concat (map (\<lambda>r. snd (process_reminder emails send today now r))
                                     (get_pending_reminders db today))"
    using process_all_log [of emails send today now "get_pending_reminders db today" db "[]"]
    by (simp add: process_daily_reminders_def)
  then have "map fst log =
      concat (map (\<lambda>r. if ?D r then [rid r] else []) (get_pending_reminders db today))"
    by (simp add: map_concat comp_def process_reminder_log_ids)
  also have "\<dots> = map rid (filter ?D (get_pending_reminders db today))"
    by (rule concat_map_singleton_filter)
  finally show ?thesis
    using assms(2) by (simp add: get_pending_reminders_def distinct_map_filter)
qed

lemma tick_sent_rows:
  assumes t: "process_daily_reminders emails send today now db = (db', log)"
    and d: "distinct (map rid (reminders db))"
    and l: "(i, True) \<in> set log"
    and x: "x' \<in> set (reminders db')" "rid x' = i"
  shows "last_sent x' = Some now"
proof -
  let ?P = "get_pending_reminders db today"
  have dp: "distinct (map rid ?P)"
    using d by (simp add: get_pending_reminders_def distinct_map_filter)
  from t have lg: "log = concat (map (\<lambda>r. snd (process_reminder emails send today now r)) ?P)"
    using process_all_log [of emails send today now ?P db "[]"]
    by (simp add: process_daily_reminders_def)
  with l obtain r where r: "r \<in> set ?P"
    "(i, True) \<in> set (snd (process_reminder emails send today now r))"
    by auto
  then have ri: "rid r = i" using process_reminder_log by blast
  from t x(1) have "x' \<in> set (reminders (fst (process_all emails send today now ?P db [])))"
    by (simp add: process_daily_reminders_def)
  from process_all_rows [OF this] show ?thesis
  proof
    assume "\<exists>q \<in> set ?P. rid q = rid x' \<and> x' = fst (process_reminder emails send today now q)"
    then obtain q where q: "q \<in> set ?P" "rid q = rid x'"
      "x' = fst (process_reminder emails send today now q)" by blast
    with r ri x(2) dp have "q = r"
      by (metis distinct_map inj_onD)
    with q r show ?thesis using process_reminder_sent by blast
  next
    assume "x' \<in> set (reminders db) \<and> rid x' \<notin> rid ` set ?P"
    with r ri x(2) show ?thesis by auto
  qed
qed

text \<open>
  C7. Every dispatch a tick attempts is for a reminder of the table that is active, not
  manually stopped, not compliance-received, below its budget
  (\<open>days_sent < max_days_to_send\<close>), whose \<open>expected_by_date\<close> is not after today,
  and whose \<open>last_sent\<close> is null or on a day strictly before today. With the primary
  key unique, one tick attempts at most one dispatch per reminder; and when the clock of
  the tick shows today, a reminder that was sent a notification in this tick gets no
  dispatch from any later tick of the same day.
\<close>

theorem tick_dispatch_guard:
  assumes "process_daily_reminders emails send today now db = (db', log)"
  shows "(\<forall>i ok. (i, ok) \<in> set log \<longrightarrow>
            (\<exists>r \<in> set (reminders db). rid r = i \<and>
               is_active r \<and> \<not> manual_stop r \<and> \<not> gst_received r \<and>
               days_sent r < max_days_to_send r \<and>
               date_le (expected_by_date r) today \<and> \<not> date_lt today (expected_by_date r) \<and>
               (last_sent r = None \<or>
                (\<exists>ls. last_sent r = Some ls \<and> date_lt (dt_date ls) today)))) \<and>
         (distinct (map rid (reminders db)) \<longrightarrow> distinct (map fst log)) \<and>
         (distinct (map rid (reminders db)) \<and> dt_date now = today \<longrightarrow>
            (\<forall>i emails2 send2 now2. (i, True) \<in> set log \<longrightarrow>
               i \<notin> fst ` set (snd (process_daily_reminders emails2 send2 today now2 db'))))"
proof (intro conjI allI impI)
  fix i ok
  assume "(i, ok) \<in> set log"
  from tick_log_pending [OF assms this] obtain r where
    "r \<in> set (get_pending_reminders db today)" "rid r = i" "should_send_today r today"
    by blast
  then show "\<exists>r \<in> set (reminders db). rid r = i \<and>
               is_active r \<and> \<not> manual_stop r \<and> \<not> gst_received r \<and>
               days_sent r < max_days_to_send r \<and>
               date_le (expected_by_date r) today \<and> \<not> date_lt today (expected_by_date r) \<and>
               (last_sent r = None \<or>
                (\<exists>ls. last_sent r = Some ls \<and> date_lt (dt_date ls) today))"
    by (auto simp: get_pending_reminders_def should_send_today_def date_le_not_after
             split: option.splits intro!: bexI [of _ r])
next
  assume "distinct (map rid (reminders db))"
  with assms show "distinct (map fst log)" by (rule tick_log_distinct)
next
  fix i emails2 send2 now2
  assume d: "distinct (map rid (reminders db)) \<and> dt_date now = today"
    and l: "(i, True) \<in> set log"
  show "i \<notin> fst ` set (snd (process_daily_reminders emails2 send2 today now2 db'))"
  proof
    assume "i \<in> fst ` set (snd (process_daily_reminders emails2 send2 today now2 db'))"
    then obtain ok where
      "(i, ok) \<in> set (snd (process_daily_reminders emails2 send2 today now2 db'))"
      by auto
    from tick_log_pending [OF surjective_pairing this] obtain x' where
      x: "x' \<in> set (get_pending_reminders db' today)" "rid x' = i" "should_send_today x' today"
      by blast
    then have "x' \<in> set (reminders db')" by (simp add: get_pending_reminders_def)
    from tick_sent_rows [OF assms _ l this x(2)] d have "last_sent x' = Some now" by simp
    with x(3) d show False by (simp add: should_send_today_def date_lt_irrefl)
  qed
qed

theorem tick_dispatch_guard_witness:
  "process_daily_reminders [] delivered july_8_2025 july_8_morning acme_pending_db =
     (acme_sent_db, [(1, True)]) \<and>
   distinct (map rid (reminders acme_pending_db)) \<and> dt_date july_8_morning = july_8_2025 \<and>
   1 \<notin> fst ` set (snd (process_daily_reminders [] delivered july_8_2025 july_8_morning
                            acme_sent_db))"
proof -
  have h: "process_daily_reminders [] delivered july_8_2025 july_8_morning acme_pending_db =
     (acme_sent_db, [(1, True)])"
    by (simp add: example_defs acme_pending_db_def acme_pending_reminder_def acme_sent_db_def)
  have d: "distinct (map rid (reminders acme_pending_db)) \<and> dt_date july_8_morning = july_8_2025"
    by (simp add: acme_pending_db_def july_8_morning_def)
  have l: "(1, True) \<in> set [(1::int, True)]" by simp
  from tick_dispatch_guard [OF h] d l
  have "1 \<notin> fst ` set (snd (process_daily_reminders [] delivered july_8_2025 july_8_morning
                            acme_sent_db))"
    by blast
  with h d show ?thesis by blast
qed

subsection \<open>One row per company and month\<close>

lemma key_count_db_add:
  "key_count (db_add db r) c m =
   key_count db c m + (if company_id r = c \<and> reminder_month r = m then 1 else 0)"
  by (simp add: key_count_def db_add_def)

lemma find_None_key_count:
  "find (\<lambda>r. company_id r = c \<and> reminder_month r = m) (reminders db) = None \<longleftrightarrow>
   key_count db c m = 0"
  by (auto simp: key_count_def find_None_iff filter_empty_conv)

lemma create_loop_unique:
  "\<forall>c m. key_count db c m \<le> 1 \<Longrightarrow> create_loop tm now cs db = Some db' \<Longrightarrow>
   \<forall>c m. key_count db' c m \<le> 1"
proof (induction cs arbitrary: db)
  case Nil
  then show ?case by simp
next
  case (Cons c cs)
  show ?case
  proof (cases "find (\<lambda>r. company_id r = cid c \<and> reminder_month r = tm) (reminders db)")
    case (Some existing)
    with Cons show ?thesis by simp
  next
    case None
    with Cons.prems obtain e where
      l: "create_loop tm now cs
            (db_add db
               \<lparr>rid = 0, company_id = cid c, reminder_month = tm,
                expected_by_date = e, max_days_to_send = 5, days_sent = 0,
                is_active = True, manual_stop = False, gst_received = False,
                created_at = now, last_sent = None\<rparr>) = Some db'"
      by (auto split: option.splits)
    from None have z: "key_count db (cid c) tm = 0"
      by (simp add: find_None_key_count)
    have "\<forall>c' m. key_count (db_add db
               \<lparr>rid = 0, company_id = cid c, reminder_month = tm,
                expected_by_date = e, max_days_to_send = 5, days_sent = 0,
                is_active = True, manual_stop = False, gst_received = False,
                created_at = now, last_sent = None\<rparr>) c' m \<le> 1"
      using Cons.prems(1) z by (simp add: key_count_db_add)
    then show ?thesis using l by (rule Cons.IH)
  qed
qed

lemma create_monthly_unique:
  "\<forall>c m. key_count db c m \<le> 1 \<Longrightarrow>
   \<forall>c m. key_count (create_monthly_reminders companies db tm now) c m \<le> 1"
  using create_loop_unique
  by (auto simp: create_monthly_reminders_def split: option.splits)

lemma create_loop_grows:
  "create_loop tm now cs db = Some db' \<Longrightarrow> set (reminders db) \<subseteq> set (reminders db')"
proof (induction cs arbitrary: db)
  case Nil
  then show ?case by simp
next
  case (Cons c cs)
  show ?case
  proof (cases "find (\<lambda>r. company_id r = cid c \<and> reminder_month r = tm) (reminders db)")
    case (Some existing)
    with Cons.prems have "create_loop tm now cs db = Some db'" by simp
    then show ?thesis by (rule Cons.IH)
  next
    case None
    with Cons.prems obtain e where
      l: "create_loop tm now cs
            (db_add db
               \<lparr>rid = 0, company_id = cid c, reminder_month = tm,
                expected_by_date = e, max_days_to_send = 5, days_sent = 0,
                is_active = True, manual_stop = False, gst_received = False,
                created_at = now, last_sent = None\<rparr>) = Some db'"
      by (auto split: option.splits)
    have "set (reminders db) \<subseteq> set (reminders (db_add db
               \<lparr>rid = 0, company_id = cid c, reminder_month = tm,
                expected_by_date = e, max_days_to_send = 5, days_sent = 0,
                is_active = True, manual_stop = False, gst_received = False,
                created_at = now, last_sent = None\<rparr>))"
      by (simp add: db_add_def subset_insertI)
    also have "\<dots> \<subseteq> set (reminders db')"
      using l by (rule Cons.IH)
    finally show ?thesis .
  qed
qed

lemma create_loop_covers:
  "create_loop tm now cs db = Some db' \<Longrightarrow>
   \<forall>c \<in> set cs. \<exists>r \<in> set (reminders db'). company_id r = cid c \<and> reminder_month r = tm"
proof (induction cs arbitrary: db)
  case Nil
  then show ?case by simp
next
  case (Cons c cs)
  show ?case
  proof (cases "find (\<lambda>r. company_id r = cid c \<and> reminder_month r = tm) (reminders db)")
    case (Some existing)
    then have e: "existing \<in> set (reminders db)" "company_id existing = cid c"
      "reminder_month existing = tm"
      by (auto simp: find_Some_iff)
    from Some Cons.prems have l: "create_loop tm now cs db = Some db'" by simp
    from e(1) create_loop_grows [OF l] have "existing \<in> set (reminders db')" by blast
    with e have "\<exists>r \<in> set (reminders db'). company_id r = cid c \<and> reminder_month r = tm"
      by blast
    with Cons.IH [OF l] show ?thesis by simp
  next
    case None
    with Cons.prems obtain e where
      l: "create_loop tm now cs
            (db_add db
               \<lparr>rid = 0, company_id = cid c, reminder_month = tm,
                expected_by_date = e, max_days_to_send = 5, days_sent = 0,
                is_active = True, manual_stop = False, gst_received = False,
                created_at = now, last_sent = None\<rparr>) = Some db'"
      by (auto split: option.splits)
    define added where "added =
               \<lparr>rid = next_rid db, company_id = cid c, reminder_month = tm,
                expected_by_date = e, max_days_to_send = 5, days_sent = 0,
                is_active = True, manual_stop = False, gst_received = False,
                created_at = now, last_sent = None\<rparr>"
    have "added \<in> set (reminders (db_add db
               \<lparr>rid = 0, company_id = cid c, reminder_month = tm,
                expected_by_date = e, max_days_to_send = 5, days_sent = 0,
                is_active = True, manual_stop = False, gst_received = False,
                created_at = now, last_sent = None\<rparr>))"
      by (simp add: db_add_def added_def)
    with create_loop_grows [OF l] have "added \<in> set (reminders db')" by blast
    moreover have "company_id added = cid c \<and> reminder_month added = tm"
      by (simp add: added_def)
    ultimately have "\<exists>r \<in> set (reminders db'). company_id r = cid c \<and> reminder_month r = tm"
      by blast
    with Cons.IH [OF l] show ?thesis by simp
  qed
qed

lemma create_loop_noop:
  "\<forall>c \<in> set cs. \<exists>r \<in> set (reminders db). company_id r = cid c \<and> reminder_month r = tm \<Longrightarrow>
   create_loop tm now cs db = Some db"
proof (induction cs)
  case Nil
  then show ?case by simp
next
  case (Cons c cs)
  then have "find (\<lambda>r. company_id r = cid c \<and> reminder_month r = tm) (reminders db) \<noteq> None"
    by (auto simp: find_None_iff)
  with Cons show ?case by auto
qed

lemma create_loop_no_date:
  "calculate_expected_date tm = None \<Longrightarrow> create_loop tm now cs db = Some db' \<Longrightarrow> db' = db"
  by (induction cs) (auto split: option.splits)

lemma create_loop_None:
  "create_loop tm now cs db = None \<Longrightarrow> calculate_expected_date tm = None"
  by (induction cs arbitrary: db) (auto split: option.splits)

lemma create_monthly_twice:
  "create_monthly_reminders companies (create_monthly_reminders companies db tm now) tm now' =
   create_monthly_reminders companies db tm now"
proof (cases "create_loop tm now (filter c_is_active companies) db")
  case None
  then have n: "calculate_expected_date tm = None"
    by (rule create_loop_None)
  from None have "create_monthly_reminders companies db tm now = db"
    by (simp add: create_monthly_reminders_def)
  moreover have "create_monthly_reminders companies db tm now' = db"
    using create_loop_no_date [OF n]
    by (auto simp: create_monthly_reminders_def split: option.splits)
  ultimately show ?thesis by simp
next
  case (Some db')
  from create_loop_noop [OF create_loop_covers [OF Some]]
  have "create_loop tm now' (filter c_is_active companies) db' = Some db'" .
  with Some show ?thesis by (simp add: create_monthly_reminders_def)
qed

lemma run_monthly_unique:
  "\<forall>c m. key_count db c m \<le> 1 \<Longrightarrow> list_all is_create_monthly ops \<Longrightarrow>
   \<forall>c m. key_count (run db ops) c m \<le> 1"
  unfolding run_def
proof (induction ops arbitrary: db)
  case Nil
  then show ?case by simp
next
  case (Cons op ops)
  from Cons.prems(2) obtain companies tm now where op: "op = Create_monthly companies tm now"
    by (cases op) (auto simp: is_create_monthly_def)
  have "\<forall>c m. key_count (apply_operation db op) c m \<le> 1"
    unfolding op apply_operation.simps
    by (rule create_monthly_unique [OF Cons.prems(1)])
  with Cons.IH Cons.prems(2) show ?case by simp
qed

text \<open>
  C3, as amended. From a table with at most one row for every pair of company and month,
  any number of monthly creations leaves at most one row for every pair; a second
  monthly creation for the same month changes nothing; and a direct creation that
  succeeds adds one more row with its pair of company and month, whatever the table holds.
\<close>

theorem monthly_creation_unique:
  assumes "\<forall>c m. key_count db c m \<le> 1" and "list_all is_create_monthly ops"
  shows "(\<forall>c m. key_count (run db ops) c m \<le> 1) \<and>
         (\<forall>companies tm now now'.
            create_monthly_reminders companies
              (create_monthly_reminders companies db tm now) tm now' =
            create_monthly_reminders companies db tm now) \<and>
         (\<forall>companies rem now db' obj.
            create_reminder companies db rem now = Inr (db', obj) \<longrightarrow>
            key_count db' (rc_company_id rem) (rc_reminder_month rem) =
            key_count db (rc_company_id rem) (rc_reminder_month rem) + 1)"
proof (intro conjI allI impI)
  fix c m
  from run_monthly_unique [OF assms] show "key_count (run db ops) c m \<le> 1" by simp
next
  fix companies tm now now'
  show "create_monthly_reminders companies
              (create_monthly_reminders companies db tm now) tm now' =
            create_monthly_reminders companies db tm now"
    by (rule create_monthly_twice)
next
  fix companies rem now db' obj
  assume "create_reminder companies db rem now = Inr (db', obj)"
  then show "key_count db' (rc_company_id rem) (rc_reminder_month rem) =
            key_count db (rc_company_id rem) (rc_reminder_month rem) + 1"
    by (auto simp: create_reminder_def Let_def key_count_db_add split: option.splits if_splits)
qed

theorem monthly_creation_unique_witness:
  "key_count empty_db 1 june_2025 \<le> 1 \<and> list_all is_create_monthly twice_monthly_ops \<and>
   key_count (run empty_db twice_monthly_ops) 1 june_2025 \<le> 1"
proof -
  have h1: "\<forall>c m. key_count empty_db c m \<le> 1"
    by (simp add: key_count_def empty_db_def)
  have h2: "list_all is_create_monthly twice_monthly_ops"
    by (simp add: twice_monthly_ops_def is_create_monthly_def)
  from monthly_creation_unique [OF h1 h2]
  have "key_count (run empty_db twice_monthly_ops) 1 june_2025 \<le> 1" by blast
  with h1 h2 show ?thesis by blast
qed

text \<open>
  C3, as stated, fails: two direct creations for Acme and June 2025 leave two rows with
  that key.
\<close>

theorem manual_creation_duplicates:
  "\<not> key_count (run empty_db twice_manual_ops) 1 june_2025 \<le> 1"
  by (simp add: example_defs key_count_def)

subsection \<open>The expected-by date\<close>

lemma seven_le_days_in_month: "7 \<le> days_in_month y m"
  by (simp add: days_in_month_def)

lemma py_date_seventh:
  "1 \<le> y \<Longrightarrow> y \<le> 9999 \<Longrightarrow> 1 \<le> m \<Longrightarrow> m \<le> 12 \<Longrightarrow>
   py_date y m 7 = Some \<lparr>year = y, month = m, day = 7\<rparr>"
  by (simp add: py_date_def valid_date_def seven_le_days_in_month)

lemma calculate_expected_date_next_month:
  assumes "valid_date rm" and "year rm < 9999 \<or> month rm < 12"
  shows "calculate_expected_date rm =
           Some \<lparr>year = (if month rm = 12 then year rm + 1 else year rm),
                 month = (if month rm = 12 then 1 else month rm + 1), day = 7\<rparr>"
proof (cases "month rm = 12")
  case True
  with assms have "1 \<le> year rm + 1" "year rm + 1 \<le> 9999"
    by (simp_all add: valid_date_def)
  then have "py_date (year rm + 1) 1 7 = Some \<lparr>year = year rm + 1, month = 1, day = 7\<rparr>"
    by (simp add: py_date_seventh)
  with True show ?thesis by (simp add: calculate_expected_date_def)
next
  case False
  with assms have "1 \<le> year rm" "year rm \<le> 9999" "1 \<le> month rm + 1" "month rm + 1 \<le> 12"
    by (simp_all add: valid_date_def)
  then have "py_date (year rm) (month rm + 1) 7 =
      Some \<lparr>year = year rm, month = month rm + 1, day = 7\<rparr>"
    by (simp add: py_date_seventh)
  with False show ?thesis by (simp add: calculate_expected_date_def)
qed

text \<open>
  C2 at the failing input. The direct creation of the mounted router, for Acme and the
  reminder month 2025-06, stores the expected-by date 2025-06-07, the 7th of the
  reminder month itself, where the claim and the batch creation have 2025-07-07.
\<close>

theorem manual_creation_expected_same_month:
  "(case create_reminder [acme] empty_db acme_june_create june_1_morning of
      Inl e \<Rightarrow> None
    | Inr (db', obj) \<Rightarrow> Some (reminder_month obj, expected_by_date obj)) =
   Some (\<lparr>year = 2025, month = 6, day = 1\<rparr>, \<lparr>year = 2025, month = 6, day = 7\<rparr>)"
  by (simp add: example_defs)

end
